theory Spec2Isabelle
  imports Main
begin

section \<open>Characters and strings\<close>

text \<open>
  Text is a list of 8-bit characters: one \<^typ>\<open>char\<close> stands for one code point of a decoded
  line, a glob or a pattern, so the development covers text whose code points lie below 256.
  The four characters below cannot be written inside a string literal.
\<close>

definition bslash :: char where
  "bslash = CHR 0x5C"

definition dquote :: char where
  "dquote = CHR 0x22"

definition squote :: char where
  "squote = CHR 0x27"

definition newline :: char where
  "newline = CHR 0x0A"

definition code :: "char \<Rightarrow> nat" where
  "code c = of_char c"

text \<open>Membership of a character in a list of inclusive ranges, by code point.\<close>

definition in_ranges :: "char \<Rightarrow> (char \<times> char) list \<Rightarrow> bool" where
  "in_ranges c rs = list_ex (\<lambda>(lo, hi). code lo \<le> code c \<and> code c \<le> code hi) rs"


section \<open>The library function fnmatch.fnmatch\<close>

text \<open>
  \<open>fnmatch.fnmatch(name, pat)\<close> on a POSIX host: \<open>os.path.normcase\<close> is the identity, the
  glob is translated item by item and the name has to match as a whole. \<open>*\<close> stands for any
  run of characters (also \<open>/\<close>), \<open>?\<close> for one character, \<open>[seq]\<close> and \<open>[!seq]\<close> for one
  character in or outside a set, and a \<open>[\<close> that is never closed for itself.
\<close>

datatype glob = GStar | GAny | GSet bool "(char \<times> char) list" | GLit char

text \<open>
  The members of a bracket expression: \<open>a-c\<close> is a range when the hyphen is neither the first
  nor the last character of the set; a range whose ends are in the wrong order is empty.
\<close>

fun set_items :: "string \<Rightarrow> (char \<times> char) list" where
  "set_items (a # b # c # rest) =
     (if b = CHR ''-'' then (a, c) # set_items rest else (a, a) # set_items (b # c # rest))"
| "set_items (a # rest) = (a, a) # set_items rest"
| "set_items [] = []"

function translate :: "string \<Rightarrow> glob list" where
  "translate [] = []"
| "translate (c # rest) =
     (if c = CHR ''*'' then GStar # translate rest
      else if c = CHR ''?'' then GAny # translate rest
      else if c = CHR ''['' then
        (let neg = (rest \<noteq> [] \<and> hd rest = CHR ''!'');
             r1 = (if neg then tl rest else rest);
             lead = (r1 \<noteq> [] \<and> hd r1 = CHR '']'');
             r2 = (if lead then tl r1 else r1);
             body = takeWhile (\<lambda>x. x \<noteq> CHR '']'') r2;
             after = dropWhile (\<lambda>x. x \<noteq> CHR '']'') r2
         in if after = [] then GLit c # translate rest
            else GSet neg (set_items ((if lead then [CHR '']''] else []) @ body))
                   # translate (tl after))
      else GLit c # translate rest)"
  by pat_completeness auto
termination
proof (relation "measure length", goal_cases)
  case (5 c rest neg r1 lead r2 body after)
  have "length after \<le> length r2"
    using 5 by (simp add: length_dropWhile_le)
  moreover have "length r2 \<le> length rest"
    using 5 by (auto simp: Let_def)
  moreover have "after \<noteq> []"
    using 5 by simp
  ultimately show ?case
    by (cases after) auto
qed auto

fun glob_match :: "glob list \<Rightarrow> string \<Rightarrow> bool" where
  "glob_match [] s = (s = [])"
| "glob_match (GStar # ps) [] = glob_match ps []"
| "glob_match (GStar # ps) (c # s) = (glob_match ps (c # s) \<or> glob_match (GStar # ps) s)"
| "glob_match (GAny # ps) [] = False"
| "glob_match (GAny # ps) (c # s) = glob_match ps s"
| "glob_match (GSet neg rs # ps) [] = False"
| "glob_match (GSet neg rs # ps) (c # s) = (in_ranges c rs \<noteq> neg \<and> glob_match ps s)"
| "glob_match (GLit x # ps) [] = False"
| "glob_match (GLit x # ps) (c # s) = (x = c \<and> glob_match ps s)"

definition fnmatch :: "string \<Rightarrow> string \<Rightarrow> bool" where
  "fnmatch name pat = glob_match (translate pat) name"


section \<open>The path filter\<close>

text \<open>
  \<open>can_analyze_file(include_paths, exclude_paths, path)\<close>: two guards in a row, each of which
  rejects; a list is falsy when it is empty and \<open>any\<close> is a search along the list.
\<close>

definition can_analyze_file :: "string list \<Rightarrow> string list \<Rightarrow> string \<Rightarrow> bool" where
  "can_analyze_file include_paths exclude_paths path =
     (if include_paths \<noteq> [] \<and> \<not> list_ex (\<lambda>p. fnmatch path p) include_paths then False
      else if exclude_paths \<noteq> [] \<and> list_ex (\<lambda>p. fnmatch path p) exclude_paths then False
      else True)"


section \<open>The library module re\<close>

text \<open>
  A compiled pattern is a syntax tree. The fragment covers what the scanner's own patterns
  are written in and the common core of suppression patterns: literals, \<open>.\<close>, \<open>^\<close>,
  \<open>$\<close>, character sets with ranges and negation, non-capturing groups, alternation and the
  greedy quantifiers \<open>*\<close>, \<open>+\<close>, \<open>?\<close>, \<open>{m}\<close>, \<open>{m,}\<close>, \<open>{m,n}\<close>. A set is a negation flag
  and a list of inclusive ranges; a counted repetition is unrolled when the pattern is
  compiled.
\<close>

datatype regex = Eps | Bol | Eol | Atom bool "(char \<times> char) list"
  | Seq regex regex | Alt regex regex | Opt regex | Star regex

text \<open>
  The matcher backtracks as \<open>re\<close> does. A cursor is the text already passed (reversed) and
  the text still ahead; \<^term>\<open>backtrack r c\<close> lists, in the order in which the engine tries
  them, the cursors at which a match of \<open>r\<close> that starts at \<open>c\<close> can end. An alternation
  tries its branches from left to right and a greedy quantifier tries one more round before it
  tries to stop. A round of \<open>*\<close> that consumes nothing ends the repetition there: the engine
  goes on with what follows the loop, and comes back to the other ways of that round only
  when that fails.
\<close>

type_synonym cursor = "string \<times> string"

fun backtrack :: "regex \<Rightarrow> cursor \<Rightarrow> cursor list" where
  "backtrack Eps c = [c]"
| "backtrack Bol c = (if fst c = [] then [c] else [])"
| "backtrack Eol c = (if snd c = [] \<or> snd c = [newline] then [c] else [])"
| "backtrack (Atom neg rs) c =
     (case snd c of [] \<Rightarrow> []
      | x # xs \<Rightarrow> if in_ranges x rs \<noteq> neg then [(x # fst c, xs)] else [])"
| "backtrack (Seq a b) c = concat (map (backtrack b) (backtrack a c))"
| "backtrack (Alt a b) c = backtrack a c @ backtrack b c"
| "backtrack (Opt a) c = backtrack a c @ [c]"
| "backtrack (Star a) c =
     concat (map (\<lambda>c'. if length (snd c') < length (snd c) then backtrack (Star a) c' else [c'])
                 (backtrack a c)) @ [c]"

text \<open>
  \<open>re.compile(pattern)\<close> reads the pattern text character by character. The result is
  \<^term>\<open>None\<close> where \<open>re\<close> raises \<open>re.error\<close> (an unbalanced parenthesis, nothing to
  repeat, a range in the wrong order \<dots>) and also for syntax outside the fragment
  (capturing groups, look-around, lazy quantifiers, back-references, word boundaries and
  numeric escapes, a brace that is not a repetition count). An escaped character stands for
  itself, also inside a set, where an escaped hyphen is a member and never the sign of a
  range; the escapes for digits, whitespace and word characters and their complements stand
  for sets of characters, here those below code point 256.
\<close>

datatype ikind = Plain | Quantified | Anchor
datatype pend = NoPend | Have char | Dash char | Cat | CatDash
datatype esc = EChar char | ECat "(char \<times> char) list"
datatype pmode = Normal | Escape | Group1 | Group2 | ClassOpen
  | ClassBody bool "(char \<times> char) list" pend bool
  | ClassEsc bool "(char \<times> char) list" pend
  | CountMin "nat option" | CountMax "nat option" "nat option"

type_synonym frame = "regex list \<times> (regex \<times> ikind) list"
type_synonym pstate = "frame list \<times> pmode"

fun seq_of :: "regex list \<Rightarrow> regex" where
  "seq_of [] = Eps"
| "seq_of [r] = r"
| "seq_of (r # rs) = Seq r (seq_of rs)"

fun alt_of :: "regex list \<Rightarrow> regex" where
  "alt_of [] = Eps"
| "alt_of [r] = r"
| "alt_of (r # rs) = Alt r (alt_of rs)"

definition close_frame :: "frame \<Rightarrow> regex" where
  "close_frame f = alt_of (rev (seq_of (rev (map fst (snd f))) # fst f))"

fun push_item :: "regex \<times> ikind \<Rightarrow> frame list \<Rightarrow> pstate option" where
  "push_item it [] = None"
| "push_item it ((alts, items) # fs) = Some ((alts, it # items) # fs, Normal)"

fun power :: "nat \<Rightarrow> regex \<Rightarrow> regex \<Rightarrow> regex" where
  "power 0 x tail = tail"
| "power (Suc n) x tail = Seq x (power n x tail)"

fun opts :: "nat \<Rightarrow> regex \<Rightarrow> regex" where
  "opts 0 x = Eps"
| "opts (Suc n) x = Opt (Seq x (opts n x))"

fun quantify :: "(regex \<Rightarrow> regex option) \<Rightarrow> frame list \<Rightarrow> pstate option" where
  "quantify q ((alts, (x, Plain) # items) # fs) =
     (case q x of None \<Rightarrow> None
      | Some y \<Rightarrow> Some ((alts, (y, Quantified) # items) # fs, Normal))"
| "quantify q fs = None"

definition count_of :: "nat \<Rightarrow> nat option \<Rightarrow> regex \<Rightarrow> regex option" where
  "count_of lo hi x =
     (case hi of None \<Rightarrow> Some (power lo x (Star x))
      | Some h \<Rightarrow> if h < lo then None else Some (power lo x (opts (h - lo) x)))"

definition digit_of :: "char \<Rightarrow> nat option" where
  "digit_of x = (if code (CHR ''0'') \<le> code x \<and> code x \<le> code (CHR ''9'')
                 then Some (code x - code (CHR ''0'')) else None)"

definition add_digit :: "nat option \<Rightarrow> nat \<Rightarrow> nat option" where
  "add_digit acc d = Some ((case acc of None \<Rightarrow> 0 | Some n \<Rightarrow> 10 * n) + d)"

definition is_alnum :: "char \<Rightarrow> bool" where
  "is_alnum x = in_ranges x [(CHR ''a'', CHR ''z''), (CHR ''A'', CHR ''Z''), (CHR ''0'', CHR ''9'')]"

definition digit_set :: "(char \<times> char) list" where
  "digit_set = [(CHR ''0'', CHR ''9'')]"

definition not_digit_set :: "(char \<times> char) list" where
  "not_digit_set = [(CHR 0x00, CHR 0x2F), (CHR 0x3A, CHR 0xFF)]"

definition space_set :: "(char \<times> char) list" where
  "space_set = [(CHR 0x09, CHR 0x0D), (CHR 0x1C, CHR 0x20), (CHR 0x85, CHR 0x85),
                (CHR 0xA0, CHR 0xA0)]"

definition not_space_set :: "(char \<times> char) list" where
  "not_space_set = [(CHR 0x00, CHR 0x08), (CHR 0x0E, CHR 0x1B), (CHR 0x21, CHR 0x84),
                    (CHR 0x86, CHR 0x9F), (CHR 0xA1, CHR 0xFF)]"

definition word_set :: "(char \<times> char) list" where
  "word_set = [(CHR ''0'', CHR ''9''), (CHR ''A'', CHR ''Z''), (CHR ''_'', CHR ''_''),
               (CHR ''a'', CHR ''z''), (CHR 0xAA, CHR 0xAA), (CHR 0xB2, CHR 0xB3),
               (CHR 0xB5, CHR 0xB5), (CHR 0xB9, CHR 0xBA), (CHR 0xBC, CHR 0xBE),
               (CHR 0xC0, CHR 0xD6), (CHR 0xD8, CHR 0xF6), (CHR 0xF8, CHR 0xFF)]"

definition not_word_set :: "(char \<times> char) list" where
  "not_word_set = [(CHR 0x00, CHR 0x2F), (CHR 0x3A, CHR 0x40), (CHR 0x5B, CHR 0x5E),
                   (CHR 0x60, CHR 0x60), (CHR 0x7B, CHR 0xA9), (CHR 0xAB, CHR 0xB1),
                   (CHR 0xB4, CHR 0xB4), (CHR 0xB6, CHR 0xB8), (CHR 0xBB, CHR 0xBB),
                   (CHR 0xBF, CHR 0xBF), (CHR 0xD7, CHR 0xD7), (CHR 0xF7, CHR 0xF7)]"

definition escaped :: "char \<Rightarrow> esc option" where
  "escaped x = (if x = CHR ''n'' then Some (EChar newline)
                else if x = CHR ''t'' then Some (EChar (CHR 0x09))
                else if x = CHR ''r'' then Some (EChar (CHR 0x0D))
                else if x = CHR ''f'' then Some (EChar (CHR 0x0C))
                else if x = CHR ''v'' then Some (EChar (CHR 0x0B))
                else if x = CHR ''a'' then Some (EChar (CHR 0x07))
                else if x = CHR ''d'' then Some (ECat digit_set)
                else if x = CHR ''D'' then Some (ECat not_digit_set)
                else if x = CHR ''s'' then Some (ECat space_set)
                else if x = CHR ''S'' then Some (ECat not_space_set)
                else if x = CHR ''w'' then Some (ECat word_set)
                else if x = CHR ''W'' then Some (ECat not_word_set)
                else if is_alnum x then None
                else Some (EChar x))"

text \<open>
  Inside a set: a character joins the set, as a member or as an end of a range; \<open>operator\<close>
  says that it is written without a backslash, and only then can a hyphen be the sign of a
  range. A class escape joins the set with all its members and can be no end of a range.
\<close>

definition class_add ::
  "bool \<Rightarrow> (char \<times> char) list \<Rightarrow> pend \<Rightarrow> bool \<Rightarrow> char \<Rightarrow> pmode option" where
  "class_add neg rs p operator x =
     (case p of
        NoPend \<Rightarrow> Some (ClassBody neg rs (Have x) False)
      | Have c \<Rightarrow> if x = CHR ''-'' \<and> operator then Some (ClassBody neg rs (Dash c) False)
                  else Some (ClassBody neg (rs @ [(c, c)]) (Have x) False)
      | Dash c \<Rightarrow> if code c \<le> code x then Some (ClassBody neg (rs @ [(c, x)]) NoPend False)
                  else None
      | Cat \<Rightarrow> if x = CHR ''-'' \<and> operator then Some (ClassBody neg rs CatDash False)
               else Some (ClassBody neg rs (Have x) False)
      | CatDash \<Rightarrow> None)"

definition class_add_set ::
  "bool \<Rightarrow> (char \<times> char) list \<Rightarrow> pend \<Rightarrow> (char \<times> char) list \<Rightarrow> pmode option" where
  "class_add_set neg rs p members =
     (case p of
        NoPend \<Rightarrow> Some (ClassBody neg (rs @ members) Cat False)
      | Have c \<Rightarrow> Some (ClassBody neg (rs @ [(c, c)] @ members) Cat False)
      | Dash c \<Rightarrow> None
      | Cat \<Rightarrow> Some (ClassBody neg (rs @ members) Cat False)
      | CatDash \<Rightarrow> None)"

definition class_items :: "(char \<times> char) list \<Rightarrow> pend \<Rightarrow> (char \<times> char) list" where
  "class_items rs p =
     rs @ (case p of NoPend \<Rightarrow> [] | Have c \<Rightarrow> [(c, c)]
           | Dash c \<Rightarrow> [(c, c), (CHR ''-'', CHR ''-'')]
           | Cat \<Rightarrow> [] | CatDash \<Rightarrow> [(CHR ''-'', CHR ''-'')])"

definition in_mode :: "frame list \<Rightarrow> pmode option \<Rightarrow> pstate option" where
  "in_mode fs m = map_option (\<lambda>m'. (fs, m')) m"

definition class_step ::
  "frame list \<Rightarrow> bool \<Rightarrow> (char \<times> char) list \<Rightarrow> pend \<Rightarrow> bool \<Rightarrow> char \<Rightarrow> pstate option" where
  "class_step fs neg rs p first x =
     (if x = CHR '']'' \<and> \<not> first then push_item (Atom neg (class_items rs p), Plain) fs
      else if x = bslash then Some (fs, ClassEsc neg rs p)
      else in_mode fs (class_add neg rs p True x))"

fun step :: "pstate \<Rightarrow> char \<Rightarrow> pstate option" where
  "step (fs, Normal) x =
     (if x = bslash then Some (fs, Escape)
      else if x = CHR ''['' then Some (fs, ClassOpen)
      else if x = CHR ''('' then Some (fs, Group1)
      else if x = CHR '')'' then
        (case fs of f # g # rest \<Rightarrow> push_item (close_frame f, Plain) (g # rest) | _ \<Rightarrow> None)
      else if x = CHR ''|'' then
        (case fs of [] \<Rightarrow> None
         | (alts, items) # rest \<Rightarrow>
             Some ((seq_of (rev (map fst items)) # alts, []) # rest, Normal))
      else if x = CHR ''*'' then quantify (\<lambda>r. Some (Star r)) fs
      else if x = CHR ''+'' then quantify (\<lambda>r. Some (Seq r (Star r))) fs
      else if x = CHR ''?'' then quantify (\<lambda>r. Some (Opt r)) fs
      else if x = CHR ''{'' then Some (fs, CountMin None)
      else if x = CHR ''.'' then push_item (Atom True [(newline, newline)], Plain) fs
      else if x = CHR ''^'' then push_item (Bol, Anchor) fs
      else if x = CHR ''$'' then push_item (Eol, Anchor) fs
      else push_item (Atom False [(x, x)], Plain) fs)"
| "step (fs, Escape) x =
     (case escaped x of
        None \<Rightarrow> None
      | Some (EChar y) \<Rightarrow> push_item (Atom False [(y, y)], Plain) fs
      | Some (ECat members) \<Rightarrow> push_item (Atom False members, Plain) fs)"
| "step (fs, Group1) x = (if x = CHR ''?'' then Some (fs, Group2) else None)"
| "step (fs, Group2) x = (if x = CHR '':'' then Some (([], []) # fs, Normal) else None)"
| "step (fs, ClassOpen) x =
     (if x = CHR ''^'' then Some (fs, ClassBody True [] NoPend True)
      else class_step fs False [] NoPend True x)"
| "step (fs, ClassBody neg rs p first) x = class_step fs neg rs p first x"
| "step (fs, ClassEsc neg rs p) x =
     (case escaped x of
        None \<Rightarrow> None
      | Some (EChar y) \<Rightarrow> in_mode fs (class_add neg rs p False y)
      | Some (ECat members) \<Rightarrow> in_mode fs (class_add_set neg rs p members))"
| "step (fs, CountMin lo) x =
     (case digit_of x of
        Some d \<Rightarrow> Some (fs, CountMin (add_digit lo d))
      | None \<Rightarrow>
          if x = CHR '','' then Some (fs, CountMax lo None)
          else if x = CHR ''}'' then
            (case lo of None \<Rightarrow> None | Some n \<Rightarrow> quantify (count_of n (Some n)) fs)
          else None)"
| "step (fs, CountMax lo hi) x =
     (case digit_of x of
        Some d \<Rightarrow> Some (fs, CountMax lo (add_digit hi d))
      | None \<Rightarrow>
          if x = CHR ''}'' then quantify (count_of (case lo of None \<Rightarrow> 0 | Some n \<Rightarrow> n) hi) fs
          else None)"

fun parse_loop :: "pstate \<Rightarrow> string \<Rightarrow> pstate option" where
  "parse_loop st [] = Some st"
| "parse_loop st (x # xs) = (case step st x of None \<Rightarrow> None | Some st' \<Rightarrow> parse_loop st' xs)"

definition re_compile :: "string \<Rightarrow> regex option" where
  "re_compile pattern =
     (case parse_loop ([([], [])], Normal) pattern of
        Some ([f], Normal) \<Rightarrow> Some (close_frame f)
      | _ \<Rightarrow> None)"

text \<open>
  The equation of \<^const>\<open>backtrack\<close> for \<open>*\<close> unfolds into itself, so it is applied by
  hand. Every end of a match lies at or after its start, which is what makes the scan of
  \<open>findall\<close> below terminate.
\<close>

declare backtrack.simps(8) [simp del]

lemma backtrack_shrinks:
  "e \<in> set (backtrack r c) \<Longrightarrow> length (snd e) \<le> length (snd c)"
proof (induction r c arbitrary: e rule: backtrack.induct)
  case (4 neg rs c)
  then show ?case by (cases "snd c") (auto split: if_splits)
next
  case (5 a b c)
  from "5.prems" obtain d where d: "d \<in> set (backtrack a c)" and e: "e \<in> set (backtrack b d)"
    by auto
  from "5.IH"(1) [OF d] "5.IH"(2) [OF d e] show ?case by simp
next
  case (6 a b c)
  from "6.prems" have "e \<in> set (backtrack a c) \<or> e \<in> set (backtrack b c)" by simp
  then show ?case
  proof
    assume "e \<in> set (backtrack a c)"
    then show ?thesis by (rule "6.IH"(1))
  next
    assume "e \<in> set (backtrack b c)"
    then show ?thesis by (rule "6.IH"(2))
  qed
next
  case (7 a c)
  show ?case
  proof (cases "e = c")
    case True
    then show ?thesis by simp
  next
    case False
    with "7.prems" have "e \<in> set (backtrack a c)" by simp
    then show ?thesis by (rule "7.IH")
  qed
next
  case (8 a c)
  from "8.prems" have "e = c \<or> (\<exists>d\<in>set (backtrack a c).
      e \<in> set (if length (snd d) < length (snd c) then backtrack (Star a) d else [d]))"
    by (subst (asm) backtrack.simps(8)) auto
  then show ?case
  proof
    assume "e = c"
    then show ?thesis by simp
  next
    assume "\<exists>d\<in>set (backtrack a c).
      e \<in> set (if length (snd d) < length (snd c) then backtrack (Star a) d else [d])"
    then obtain d where d: "d \<in> set (backtrack a c)"
      and e: "e \<in> set (if length (snd d) < length (snd c) then backtrack (Star a) d else [d])"
      by blast
    show ?thesis
    proof (cases "length (snd d) < length (snd c)")
      case True
      with e have "e \<in> set (backtrack (Star a) d)" by simp
      from "8.IH"(2) [OF d True this] True show ?thesis by simp
    next
      case False
      with e have "e = d" by simp
      with "8.IH"(1) [OF d] show ?thesis by simp
    qed
  qed
qed (simp_all split: if_splits)

text \<open>
  \<open>pattern.findall(line)\<close>, for a pattern without capturing groups, is the list of the texts
  of the non-overlapping matches, found from left to right. Each search takes the first
  position at which the pattern matches and there the first end the matcher offers; after an
  empty match the next one may not be empty at the same position (\<open>must_advance\<close>).
\<close>

fun first_end :: "bool \<Rightarrow> cursor \<Rightarrow> cursor list \<Rightarrow> cursor option" where
  "first_end must_advance c [] = None"
| "first_end must_advance c (e # es) =
     (if must_advance \<and> length (snd e) = length (snd c) then first_end must_advance c es
      else Some e)"

fun search :: "regex \<Rightarrow> bool \<Rightarrow> string \<Rightarrow> string \<Rightarrow> (cursor \<times> cursor) option" where
  "search r must_advance l [] =
     (case first_end must_advance (l, []) (backtrack r (l, [])) of
        Some e \<Rightarrow> Some ((l, []), e)
      | None \<Rightarrow> None)"
| "search r must_advance l (x # xs) =
     (case first_end must_advance (l, x # xs) (backtrack r (l, x # xs)) of
        Some e \<Rightarrow> Some ((l, x # xs), e)
      | None \<Rightarrow> search r False (x # l) xs)"

lemma first_end_mem: "first_end adv c es = Some e \<Longrightarrow> e \<in> set es"
  by (induction es) (auto split: if_splits)

lemma first_end_advances:
  "first_end True c es = Some e \<Longrightarrow> length (snd e) \<noteq> length (snd c)"
  by (induction es) (auto split: if_splits)

lemma first_end_bounds:
  assumes "first_end adv c (backtrack r c) = Some e"
  shows "length (snd e) \<le> length (snd c) \<and> (adv \<longrightarrow> length (snd e) < length (snd c))"
proof -
  from assms have "e \<in> set (backtrack r c)" by (rule first_end_mem)
  then have le: "length (snd e) \<le> length (snd c)" by (rule backtrack_shrinks)
  show ?thesis
  proof (cases adv)
    case True
    with assms have "first_end True c (backtrack r c) = Some e" by simp
    from first_end_advances [OF this] le True show ?thesis by simp
  next
    case False
    with le show ?thesis by simp
  qed
qed

lemma search_bounds:
  "search r adv l rt = Some (s, e) \<Longrightarrow>
     length (snd e) \<le> length (snd s) \<and> length (snd s) \<le> length rt
     \<and> (adv \<longrightarrow> length (snd e) < length rt)"
proof (induction r adv l rt rule: search.induct)
  case (1 r adv l)
  show ?case
  proof (cases "first_end adv (l, []) (backtrack r (l, []))")
    case None
    with 1 show ?thesis by simp
  next
    case (Some e')
    with 1 have se: "s = (l, [])" "e = e'" by simp_all
    from first_end_bounds [OF Some] se show ?thesis by simp
  qed
next
  case (2 r adv l x xs)
  show ?case
  proof (cases "first_end adv (l, x # xs) (backtrack r (l, x # xs))")
    case None
    with 2 have "search r False (x # l) xs = Some (s, e)" by simp
    from "2.IH" [OF None this] show ?thesis by simp
  next
    case (Some e')
    with 2 have se: "s = (l, x # xs)" "e = e'" by simp_all
    from first_end_bounds [OF Some] se show ?thesis by simp
  qed
qed

function findall_from :: "regex \<Rightarrow> bool \<Rightarrow> cursor \<Rightarrow> string list" where
  "findall_from r must_advance c =
     (case search r must_advance (fst c) (snd c) of
        None \<Rightarrow> []
      | Some (s, e) \<Rightarrow>
          take (length (snd s) - length (snd e)) (snd s)
            # findall_from r (length (snd e) = length (snd s)) e)"
  by pat_completeness auto
termination
proof (relation "measure (\<lambda>(r, adv, c). 2 * length (snd c) + (if adv then 0 else 1))", goal_cases)
  case 1
  show ?case by simp
next
  case (2 r adv c x s e)
  then have "search r adv (fst c) (snd c) = Some (s, e)" by simp
  from search_bounds [OF this]
  have "length (snd e) \<le> length (snd s)" "length (snd s) \<le> length (snd c)"
    "adv \<longrightarrow> length (snd e) < length (snd c)" by blast+
  then show ?case by (cases adv) auto
qed

declare findall_from.simps [simp del]

definition re_findall :: "regex \<Rightarrow> string \<Rightarrow> string list" where
  "re_findall r line = findall_from r False ([], line)"

text \<open>\<open>pattern.match(line)\<close>: the match that starts at position 0, if there is one.\<close>

definition re_match :: "regex \<Rightarrow> string \<Rightarrow> string option" where
  "re_match r line =
     (case backtrack r ([], line) of [] \<Rightarrow> None
      | e # es \<Rightarrow> Some (take (length line - length (snd e)) line))"


section \<open>The scanner\<close>

text \<open>A way to decide membership in a set that evaluates quickly on one-character ranges.\<close>

lemma in_ranges_code [code]:
  "in_ranges c [] = False"
  "in_ranges c ((lo, hi) # rs) =
     (if lo = hi then (c = lo \<or> in_ranges c rs)
      else (code lo \<le> code c \<and> code c \<le> code hi) \<or> in_ranges c rs)"
  by (auto simp: in_ranges_def code_def)


text \<open>
  \<open>str.strip()\<close> removes the whitespace of \<open>str.isspace\<close> at both ends; below code point
  256 that is \<open>\\t\<close> to \<open>\\r\<close>, the separators 0x1C to 0x1F, the space, 0x85 and 0xA0.
\<close>

definition py_isspace :: "char \<Rightarrow> bool" where
  "py_isspace c = in_ranges c
     [(CHR 0x09, CHR 0x0D), (CHR 0x1C, CHR 0x20), (CHR 0x85, CHR 0x85), (CHR 0xA0, CHR 0xA0)]"

definition strip :: "string \<Rightarrow> string" where
  "strip s = rev (dropWhile py_isspace (rev (dropWhile py_isspace s)))"


text \<open>
  \<open>str.upper()\<close> and \<open>str.lower()\<close> on letters below code point 256. The upper case of
  \<open>0xDF\<close> is the two letters \<open>SS\<close>; the upper cases of \<open>0xB5\<close> and \<open>0xFF\<close> lie beyond
  code point 255 and are outside the model, which leaves these two characters unchanged.
\<close>

definition upper_char :: "char \<Rightarrow> string" where
  "upper_char c =
     (if in_ranges c [(CHR ''a'', CHR ''z''), (CHR 0xE0, CHR 0xF6), (CHR 0xF8, CHR 0xFE)]
      then [char_of (code c - 32)]
      else if c = CHR 0xDF then ''SS''
      else [c])"

definition lower_char :: "char \<Rightarrow> char" where
  "lower_char c =
     (if in_ranges c [(CHR ''A'', CHR ''Z''), (CHR 0xC0, CHR 0xD6), (CHR 0xD8, CHR 0xDE)]
      then char_of (code c + 32)
      else c)"

definition upper :: "string \<Rightarrow> string" where
  "upper s = concat (map upper_char s)"

definition lower :: "string \<Rightarrow> string" where
  "lower s = map lower_char s"


text \<open>\<open>sep.join(list)\<close>.\<close>

fun join :: "string \<Rightarrow> string list \<Rightarrow> string" where
  "join sep [] = []"
| "join sep [s] = s"
| "join sep (s # t # rest) = s @ sep @ join sep (t # rest)"


text \<open>The two module constants; the raw strings of the source keep their backslashes.\<close>

definition DEFAULT_BAD_WORDS :: "string list" where
  "DEFAULT_BAD_WORDS = [''token'', ''oauth'', ''secret'', ''pass'', ''password'', ''senha'']"

definition DEFAULT_ANALYZERS :: "string list" where
  "DEFAULT_ANALYZERS =
     ['' *[:=] *['' @ [dquote, bslash, squote] @ ''][^'' @ [dquote, bslash, squote]
        @ '']{4,}['' @ [dquote, bslash, squote] @ '']'',
      ''[:=][^'' @ [dquote, bslash, squote] @ ''& ,;{()<'' @ [bslash] @ ''n]{4,}'']"


text \<open>\<open>check_exclude_pattern(checkers, line)\<close>: the loop returns at the first pattern that matches.\<close>

fun check_exclude_pattern :: "regex list \<Rightarrow> string \<Rightarrow> bool" where
  "check_exclude_pattern [] line = False"
| "check_exclude_pattern (pattern # checkers) line =
     (if re_match pattern line \<noteq> None then True else check_exclude_pattern checkers line)"


text \<open>
  \<open>build_bad_words(words)\<close>: the inner loop appends one bracket pair per character to
  \<open>rule\<close>, the outer loop appends one closed group per word to \<open>bad_words\<close>, and the groups
  are joined with a bar. The result is pattern text.
\<close>

fun rule_loop :: "(char \<times> char) list \<Rightarrow> string \<Rightarrow> string" where
  "rule_loop [] rule = rule"
| "rule_loop ((up, low) # rest) rule = rule_loop rest (rule @ [CHR ''['', up, low, CHR '']''])"

fun words_loop :: "string list \<Rightarrow> string list \<Rightarrow> string list" where
  "words_loop [] bad_words = bad_words"
| "words_loop (word # words) bad_words =
     words_loop words (bad_words @ [rule_loop (zip (upper word) (lower word)) ''(?:'' @ '')''])"

definition build_bad_words :: "string list \<Rightarrow> string" where
  "build_bad_words words = join ''|'' (words_loop words [])"


text \<open>
  \<open>build_regex_analyzers(rules, bad_words)\<close>: one compiled pattern per rule. An exception of
  \<open>re.compile\<close> is not caught, so the whole call fails with it.
\<close>

fun analyzers_build_loop :: "string list \<Rightarrow> string \<Rightarrow> regex list \<Rightarrow> regex list option" where
  "analyzers_build_loop [] bad_words analyzers = Some analyzers"
| "analyzers_build_loop (rule # rules) bad_words analyzers =
     (case re_compile (''(?:'' @ bad_words @ '')(?:[a-zA-Z_][a-zA-Z0-9_]*)?'' @ rule) of
        None \<Rightarrow> None
      | Some checker \<Rightarrow> analyzers_build_loop rules bad_words (analyzers @ [checker]))"

definition build_regex_analyzers :: "string list \<Rightarrow> string \<Rightarrow> regex list option" where
  "build_regex_analyzers rules bad_words = analyzers_build_loop rules bad_words []"



text \<open>
  A finding is the dictionary that \<open>check_file_handler\<close> appends. A file opened in text mode
  yields lines (each with its line end, when it has one) until the end of the file or until
  the decoder raises \<open>UnicodeDecodeError\<close>; \<open>open\<close> itself can fail with an \<open>OSError\<close>, which
  nothing catches.
\<close>

record finding =
  "file" :: string
  target :: string
  line :: nat
  "string" :: string

datatype handler = EOF | Line string handler | DecodeError

datatype opened = Text handler | OpenFails

datatype error = OSError


text \<open>
  \<open>check_file_handler(path, max_length, analyzers, patterns)\<close>, with the file that \<open>path\<close>
  names as a further argument. The inner loop runs every analyzer on the line; the outer loop
  numbers the lines from 0 and skips a line that is longer than \<open>max_length\<close>; the
  \<open>except\<close> clause turns a decoding error into the end of the loop.
\<close>

fun analyzers_loop ::
  "string \<Rightarrow> nat \<Rightarrow> string \<Rightarrow> regex list \<Rightarrow> regex list \<Rightarrow> finding list \<Rightarrow> finding list" where
  "analyzers_loop path i ln patterns [] result = result"
| "analyzers_loop path i ln patterns (checker # analyzers) result =
     (let data = re_findall checker ln in
      if data \<noteq> [] \<and> \<not> check_exclude_pattern patterns ln
      then analyzers_loop path i ln patterns analyzers
             (result @ [\<lparr>file = path, target = hd data, line = i, string = strip ln\<rparr>])
      else analyzers_loop path i ln patterns analyzers result)"

fun lines_loop ::
  "string \<Rightarrow> int \<Rightarrow> regex list \<Rightarrow> regex list \<Rightarrow> nat \<Rightarrow> handler \<Rightarrow> finding list \<Rightarrow> finding list" where
  "lines_loop path max_length analyzers patterns i EOF result = result"
| "lines_loop path max_length analyzers patterns i DecodeError result = result"
| "lines_loop path max_length analyzers patterns i (Line ln h) result =
     (if int (length ln) > max_length
      then lines_loop path max_length analyzers patterns (Suc i) h result
      else lines_loop path max_length analyzers patterns (Suc i) h
             (analyzers_loop path i ln patterns analyzers result))"

definition check_file_handler ::
  "string \<Rightarrow> int \<Rightarrow> regex list \<Rightarrow> regex list \<Rightarrow> opened \<Rightarrow> error + finding list" where
  "check_file_handler path max_length analyzers patterns f =
     (case f of
        OpenFails \<Rightarrow> Inl OSError
      | Text handler \<Rightarrow> Inr (lines_loop path max_length analyzers patterns 0 handler []))"


text \<open>\<open>os.path.join(root, file)\<close> on a POSIX host.\<close>

definition os_path_join :: "string \<Rightarrow> string \<Rightarrow> string" where
  "os_path_join a b =
     (if b \<noteq> [] \<and> hd b = CHR ''/'' then b
      else if a = [] \<or> last a = CHR ''/'' then a @ b
      else a @ ''/'' @ b)"


text \<open>
  \<open>start_digging\<close>. Its first argument stands for \<open>os.walk(root_path)\<close>: the sequence of
  triples of a directory, its subdirectories and its files, here each file with what opening
  it gives. The two nested loops end by running out (\<open>Continue\<close>), by the \<open>return\<close> under the
  limit test (\<open>Return\<close>) or by an exception (\<open>Raise\<close>).
\<close>

type_synonym walk = "(string \<times> string list \<times> (string \<times> opened) list) list"

datatype 'a flow = Continue 'a | Return 'a | Raise error

fun files_loop ::
  "int \<Rightarrow> int \<Rightarrow> regex list \<Rightarrow> regex list \<Rightarrow> string list \<Rightarrow> string list \<Rightarrow> string
     \<Rightarrow> (string \<times> opened) list \<Rightarrow> int \<times> finding list \<Rightarrow> (int \<times> finding list) flow" where
  "files_loop limit max_length analyzers patterns include_paths exclude_paths root [] st =
     Continue st"
| "files_loop limit max_length analyzers patterns include_paths exclude_paths root
     ((name, f) # file_list) (counter, result) =
     (let path = os_path_join root name in
      if \<not> can_analyze_file include_paths exclude_paths path
      then files_loop limit max_length analyzers patterns include_paths exclude_paths root
             file_list (counter, result)
      else if counter > limit then Return (counter, result)
      else (case check_file_handler path max_length analyzers patterns f of
              Inl e \<Rightarrow> Raise e
            | Inr found \<Rightarrow>
                files_loop limit max_length analyzers patterns include_paths exclude_paths root
                  file_list (counter + 1, result @ found)))"

fun walk_loop ::
  "int \<Rightarrow> int \<Rightarrow> regex list \<Rightarrow> regex list \<Rightarrow> string list \<Rightarrow> string list
     \<Rightarrow> walk \<Rightarrow> int \<times> finding list \<Rightarrow> (int \<times> finding list) flow" where
  "walk_loop limit max_length analyzers patterns include_paths exclude_paths [] st = Continue st"
| "walk_loop limit max_length analyzers patterns include_paths exclude_paths
     ((root, subfolder_list, file_list) # rest) st =
     (case files_loop limit max_length analyzers patterns include_paths exclude_paths root
             file_list st of
        Continue st' \<Rightarrow>
          walk_loop limit max_length analyzers patterns include_paths exclude_paths rest st'
      | Return st' \<Rightarrow> Return st'
      | Raise e \<Rightarrow> Raise e)"

definition start_digging ::
  "walk \<Rightarrow> int \<Rightarrow> int \<Rightarrow> regex list \<Rightarrow> regex list \<Rightarrow> string list \<Rightarrow> string list
     \<Rightarrow> error + (int \<times> finding list)" where
  "start_digging root_walk limit max_length analyzers patterns include_paths exclude_paths =
     (case walk_loop limit max_length analyzers patterns include_paths exclude_paths root_walk
             (0, []) of
        Continue st \<Rightarrow> Inr st
      | Return st \<Rightarrow> Inr st
      | Raise e \<Rightarrow> Inl e)"


text \<open>
  The lines a fully decodable text is read as. \<open>open(path, 'r')\<close> reads with universal
  newlines: a carriage return, alone or followed by a newline, ends a line as a newline does
  and is read as one newline character. Each line ends after its newline character, and
  the last line has none when the text does not end with a line end.
\<close>

definition carriage_return :: char where
  "carriage_return = CHR 0x0D"

fun universal_newlines :: "string \<Rightarrow> string" where
  "universal_newlines (c # d # cs) =
     (if c = carriage_return \<and> d = newline then newline # universal_newlines cs
      else if c = carriage_return then newline # universal_newlines (d # cs)
      else c # universal_newlines (d # cs))"
| "universal_newlines [c] = (if c = carriage_return then [newline] else [c])"
| "universal_newlines [] = []"

fun readlines :: "string \<Rightarrow> string \<Rightarrow> string list" where
  "readlines cur [] = (if cur = [] then [] else [cur])"
| "readlines cur (c # cs) =
     (if c = newline then (cur @ [c]) # readlines [] cs else readlines (cur @ [c]) cs)"

definition text_file :: "string \<Rightarrow> opened" where
  "text_file content = Text (foldr Line (readlines [] (universal_newlines content)) EOF)"


text \<open>The main program builds the keyword pattern from \<open>bad_words or DEFAULT_BAD_WORDS\<close>.\<close>

definition main_bad_words :: "string list \<Rightarrow> string" where
  "main_bad_words bad_words =
     build_bad_words (if bad_words \<noteq> [] then bad_words else DEFAULT_BAD_WORDS)"


text \<open>
  The syntax trees that the two default rules compile to, for a list of keywords: the
  alternation of the keywords, the optional identifier suffix and the tail of the rule.
\<close>

definition letter_class :: "char \<Rightarrow> char \<Rightarrow> regex" where
  "letter_class up low = Atom False [(up, up), (low, low)]"

definition word_regex :: "string \<Rightarrow> regex" where
  "word_regex w = seq_of (map (\<lambda>(up, low). letter_class up low) (zip (upper w) (lower w)))"

definition quote_set :: "(char \<times> char) list" where
  "quote_set = [(dquote, dquote), (squote, squote)]"

definition ident_suffix :: regex where
  "ident_suffix =
     Seq (Atom False [(CHR ''a'', CHR ''z''), (CHR ''A'', CHR ''Z''), (CHR ''_'', CHR ''_'')])
       (Star (Atom False [(CHR ''a'', CHR ''z''), (CHR ''A'', CHR ''Z''),
                          (CHR ''0'', CHR ''9''), (CHR ''_'', CHR ''_'')]))"

definition spaces :: regex where
  "spaces = Star (Atom False [(CHR '' '', CHR '' '')])"

definition colon_or_equals :: regex where
  "colon_or_equals = Atom False [(CHR '':'', CHR '':''), (CHR ''='', CHR ''='')]"

definition url_set :: "(char \<times> char) list" where
  "url_set = [(dquote, dquote), (squote, squote), (CHR ''&'', CHR ''&''), (CHR '' '', CHR '' ''),
     (CHR '','', CHR '',''), (CHR '';'', CHR '';''), (CHR ''{'', CHR ''{''), (CHR ''('', CHR ''(''),
     (CHR '')'', CHR '')''), (CHR ''<'', CHR ''<''), (newline, newline)]"

definition assignment_detector :: "string list \<Rightarrow> regex" where
  "assignment_detector words =
     seq_of [alt_of (map word_regex words), Opt ident_suffix, spaces, colon_or_equals, spaces,
             Atom False quote_set, power 4 (Atom True quote_set) (Star (Atom True quote_set)),
             Atom False quote_set]"

definition url_detector :: "string list \<Rightarrow> regex" where
  "url_detector words =
     seq_of [alt_of (map word_regex words), Opt ident_suffix, colon_or_equals,
             power 4 (Atom True url_set) (Star (Atom True url_set))]"


section \<open>What a file contributes\<close>

text \<open>
  Three notions to state the properties with: the lines that are read from a file before it
  ends or stops decoding; the findings of one line that is not skipped (one per analyzer
  that matches, in the order of the analyzers, none when the line is suppressed); and the
  findings of a numbered line under the length limit.
\<close>

fun lines_of :: "handler \<Rightarrow> string list" where
  "lines_of EOF = []"
| "lines_of DecodeError = []"
| "lines_of (Line ln h) = ln # lines_of h"

definition hits :: "string \<Rightarrow> nat \<Rightarrow> string \<Rightarrow> regex list \<Rightarrow> regex list \<Rightarrow> finding list" where
  "hits path i ln patterns analyzers =
     (if check_exclude_pattern patterns ln then []
      else map (\<lambda>checker. \<lparr>file = path, target = hd (re_findall checker ln), line = i,
                              string = strip ln\<rparr>)
             (filter (\<lambda>checker. re_findall checker ln \<noteq> []) analyzers))"

definition line_hits :: "string \<Rightarrow> int \<Rightarrow> regex list \<Rightarrow> regex list \<Rightarrow> nat \<times> string \<Rightarrow> finding list" where
  "line_hits path max_length analyzers patterns numbered =
     (if max_length < int (length (snd numbered)) then []
      else hits path (fst numbered) (snd numbered) patterns analyzers)"


section \<open>Suppression, observed\<close>

text \<open>
  The patterns on which the loop of \<open>check_exclude_pattern\<close> calls \<open>match\<close>, in the order of
  the calls: the loop returns inside the first iteration whose pattern matches. And the
  syntax tree of the suppression pattern of the specification's example.
\<close>

fun patterns_tried :: "regex list \<Rightarrow> string \<Rightarrow> regex list" where
  "patterns_tried [] ln = []"
| "patterns_tried (pattern # checkers) ln =
     pattern # (if re_match pattern ln \<noteq> None then [] else patterns_tried checkers ln)"

definition hash_comment :: regex where
  "hash_comment =
     Seq Bol (Seq (Atom False [(CHR ''#'', CHR ''#'')]) (Star (Atom True [(newline, newline)])))"


section \<open>The files of a walk\<close>

text \<open>
  To state what the walk does as a whole: the files of a walk with their joined paths, in
  the order of the walk; those that the path filter accepts; and the findings of one file
  that opens. The two nested loops of \<open>start_digging\<close> amount to one loop over the accepted
  files, \<^term>\<open>scan\<close>, which the lemmas below show.
\<close>

definition walk_files :: "walk \<Rightarrow> (string \<times> opened) list" where
  "walk_files w =
     concat (map (\<lambda>(root, subfolder_list, file_list).
                    map (\<lambda>(name, f). (os_path_join root name, f)) file_list) w)"

definition eligible :: "string list \<Rightarrow> string list \<Rightarrow> walk \<Rightarrow> (string \<times> opened) list" where
  "eligible include_paths exclude_paths w =
     filter (\<lambda>(path, f). can_analyze_file include_paths exclude_paths path) (walk_files w)"

definition found_in :: "int \<Rightarrow> regex list \<Rightarrow> regex list \<Rightarrow> string \<times> opened \<Rightarrow> finding list" where
  "found_in max_length analyzers patterns pf =
     (case snd pf of
        Text h \<Rightarrow> lines_loop (fst pf) max_length analyzers patterns 0 h []
      | OpenFails \<Rightarrow> [])"

fun scan ::
  "int \<Rightarrow> int \<Rightarrow> regex list \<Rightarrow> regex list \<Rightarrow> (string \<times> opened) list \<Rightarrow> int \<times> finding list
     \<Rightarrow> (int \<times> finding list) flow" where
  "scan limit max_length analyzers patterns [] st = Continue st"
| "scan limit max_length analyzers patterns ((path, f) # rest) (counter, result) =
     (if counter > limit then Return (counter, result)
      else (case check_file_handler path max_length analyzers patterns f of
              Inl e \<Rightarrow> Raise e
            | Inr found \<Rightarrow> scan limit max_length analyzers patterns rest
                             (counter + 1, result @ found)))"

definition and_then ::
  "(int \<times> finding list) flow \<Rightarrow> (int \<times> finding list \<Rightarrow> (int \<times> finding list) flow)
     \<Rightarrow> (int \<times> finding list) flow" where
  "and_then r k = (case r of Continue st \<Rightarrow> k st | Return st \<Rightarrow> Return st | Raise e \<Rightarrow> Raise e)"


section \<open>The texts that a pattern matches\<close>





section \<open>Properties of the path filter\<close>

lemma list_ex_fnmatch_iff:
  "list_ex (\<lambda>p. fnmatch path p) ps = (\<exists>p\<in>set ps. fnmatch path p)"
  by (simp add: list_ex_iff)

text \<open>
  What the function computes: it accepts a path exactly when the include list is empty or
  one of its globs matches the path, and no glob of the exclude list matches it. A non-empty
  include list that the path misses rejects the path whatever the exclude list holds; a path
  that an include glob matches is still handed to the exclude list.
\<close>

lemma can_analyze_file_decision:
  "can_analyze_file include_paths exclude_paths path =
     ((include_paths = [] \<or> (\<exists>p\<in>set include_paths. fnmatch path p))
      \<and> \<not> (\<exists>p\<in>set exclude_paths. fnmatch path p))"
  unfolding can_analyze_file_def list_ex_fnmatch_iff by auto

lemma can_analyze_file_include_misses:
  "include_paths \<noteq> [] \<Longrightarrow> \<not> (\<exists>p\<in>set include_paths. fnmatch path p) \<Longrightarrow>
     \<not> can_analyze_file include_paths exclude_paths path"
  by (simp add: can_analyze_file_decision)

text \<open>
  Claim C1. The claim, like the help text of the option \<open>--include-paths\<close> in the program
  (\<^emph>\<open>This option has precedence over the option --exclude-paths\<close>), lets a path that an
  include glob matches be accepted without regard to the exclude list. The function does
  not do that. With the include list \<open>*.py\<close> and the exclude list \<open>*test*\<close>: the include
  glob matches \<open>app/test_main.py\<close>, the path is accepted when the exclude list is empty, and
  it is rejected under the exclude list, whose glob matches it too. The path
  \<open>app/main.py\<close> is accepted, as the claim says.
\<close>

theorem can_analyze_file_exclude_after_include:
  "list_ex (\<lambda>p. fnmatch ''app/test_main.py'' p) [''*.py'']
   \<and> list_ex (\<lambda>p. fnmatch ''app/test_main.py'' p) [''*test*'']
   \<and> can_analyze_file [''*.py''] [] ''app/test_main.py''
   \<and> \<not> can_analyze_file [''*.py''] [''*test*''] ''app/test_main.py''
   \<and> can_analyze_file [''*.py''] [''*test*''] ''app/main.py''"
  by (simp add: can_analyze_file_def fnmatch_def)


section \<open>Properties of the line evaluator\<close>

text \<open>The loops of \<open>check_file_handler\<close>, read as a whole.\<close>

lemma analyzers_loop_hits:
  "analyzers_loop path i ln patterns analyzers result =
     result @ hits path i ln patterns analyzers"
  by (induction analyzers arbitrary: result) (simp_all add: hits_def Let_def)

lemma lines_loop_hits:
  "lines_loop path max_length analyzers patterns i h result =
     result @ concat (map (line_hits path max_length analyzers patterns)
                       (zip [i ..< i + length (lines_of h)] (lines_of h)))"
proof (induction h arbitrary: i result)
  case (Line ln h)
  have "[i ..< i + length (lines_of (Line ln h))] = i # [Suc i ..< Suc i + length (lines_of h)]"
    by (simp add: upt_rec)
  then show ?case
    by (simp add: Line.IH analyzers_loop_hits line_hits_def)
qed simp_all

lemma check_file_handler_lines:
  "check_file_handler path max_length analyzers patterns (Text h) =
     Inr (concat (map (line_hits path max_length analyzers patterns)
                    (zip [0 ..< length (lines_of h)] (lines_of h))))"
  by (simp add: check_file_handler_def lines_loop_hits)


lemma in_zip_upt:
  "(k, x) \<in> set (zip [0 ..< length xs] xs) \<Longrightarrow> k < length xs \<and> xs ! k = x"
  by (auto simp: in_set_zip)

lemma hits_line: "f \<in> set (hits path i ln patterns analyzers) \<Longrightarrow> line f = i"
  by (auto simp: hits_def split: if_splits)

lemma findings_come_from_short_lines:
  assumes "check_file_handler path max_length analyzers patterns (Text h) = Inr fs"
    and "f \<in> set fs"
  shows "line f < length (lines_of h) \<and> int (length (lines_of h ! line f)) \<le> max_length"
proof -
  from assms obtain k ln where kl: "(k, ln) \<in> set (zip [0 ..< length (lines_of h)] (lines_of h))"
    and f: "f \<in> set (line_hits path max_length analyzers patterns (k, ln))"
    by (auto simp: check_file_handler_lines)
  from f have short: "\<not> max_length < int (length ln)" and "f \<in> set (hits path k ln patterns analyzers)"
    by (auto simp: line_hits_def split: if_splits)
  then have "line f = k" by (simp add: hits_line)
  with in_zip_upt [OF kl] short show ?thesis by simp
qed

text \<open>
  Claim C8. A line longer than \<open>max_length\<close> is passed over without any use of the analyzers:
  the loop goes on with the next line and the result it had. Hence every finding of a file
  carries the number of a line that is read and is not longer than \<open>max_length\<close>. With the
  limit 1000, a file whose only line has 1001 characters and contains \<open>password="abcd"\<close> gives
  no finding, whatever the analyzers and the suppression patterns are.
\<close>

theorem long_lines_are_skipped:
  "(max_length < int (length ln) \<longrightarrow>
      lines_loop path max_length analyzers patterns i (Line ln h) result
      = lines_loop path max_length analyzers patterns (Suc i) h result)
   \<and> (\<forall>fs. check_file_handler path max_length analyzers patterns (Text h) = Inr fs \<longrightarrow>
         (\<forall>f\<in>set fs. line f < length (lines_of h)
                      \<and> int (length (lines_of h ! line f)) \<le> max_length))
   \<and> check_file_handler path 1000 analyzers patterns
         (Text (Line (replicate 986 (CHR ''x'') @ ''password='' @ [dquote] @ ''abcd'' @ [dquote]) EOF))
       = Inr []"
proof (intro conjI)
  show "max_length < int (length ln) \<longrightarrow>
      lines_loop path max_length analyzers patterns i (Line ln h) result
      = lines_loop path max_length analyzers patterns (Suc i) h result"
    by simp
  show "\<forall>fs. check_file_handler path max_length analyzers patterns (Text h) = Inr fs \<longrightarrow>
         (\<forall>f\<in>set fs. line f < length (lines_of h)
                      \<and> int (length (lines_of h ! line f)) \<le> max_length)"
    using findings_come_from_short_lines by blast
  show "check_file_handler path 1000 analyzers patterns
         (Text (Line (replicate 986 (CHR ''x'') @ ''password='' @ [dquote] @ ''abcd'' @ [dquote]) EOF))
       = Inr []"
    by (simp add: check_file_handler_def)
qed

text \<open>A line of six characters under the limit 3 is skipped.\<close>

theorem long_lines_are_skipped_witness:
  "3 < int (length ''abcdef'')
   \<and> lines_loop ''f'' 3 [] [] 0 (Line ''abcdef'' EOF) [] = lines_loop ''f'' 3 [] [] (Suc 0) EOF []"
  using long_lines_are_skipped [of 3 "''abcdef''" "''f''" "[]" "[]" 0 EOF "[]"]
  by simp

lemma readlines_line:
  "newline \<notin> set content \<Longrightarrow>
     readlines cur (content @ newline # rest) = (cur @ content @ [newline]) # readlines [] rest"
  by (induction content arbitrary: cur) auto

lemma readlines_rest:
  "newline \<notin> set content \<Longrightarrow>
     readlines cur content = (if cur @ content = [] then [] else [cur @ content])"
  by (induction content arbitrary: cur) auto

lemma readlines_last:
  "newline \<notin> set content \<Longrightarrow> content \<noteq> [] \<Longrightarrow> readlines cur content = [cur @ content]"
  by (simp add: readlines_rest)

lemma universal_newlines_other:
  "c \<noteq> carriage_return \<Longrightarrow> universal_newlines (c # cs) = c # universal_newlines cs"
  by (cases cs) simp_all

lemma universal_newlines_plain:
  "carriage_return \<notin> set content \<Longrightarrow>
     universal_newlines (content @ rest) = content @ universal_newlines rest"
proof (induction content)
  case Nil
  show ?case by simp
next
  case (Cons c content)
  then have "c \<noteq> carriage_return" by auto
  then have "universal_newlines (c # content @ rest) = c # universal_newlines (content @ rest)"
    by (rule universal_newlines_other)
  with Cons show ?case by simp
qed

lemma universal_newlines_crlf:
  "universal_newlines (carriage_return # newline # rest) = newline # universal_newlines rest"
  by simp

lemma universal_newlines_lf:
  "universal_newlines (newline # rest) = newline # universal_newlines rest"
  by (simp add: universal_newlines_other newline_def carriage_return_def)

text \<open>
  Claim C10. The length that is compared with \<open>max_length\<close> is that of the line as it is
  read, with its newline. So a line that is read as a content of exactly \<open>max_length\<close>
  characters and a newline measures \<open>max_length + 1\<close>, and no finding carries its number,
  wherever it stands in the file. A text is read as lines that keep their line end as one
  newline character, whether the file has a newline or a carriage return and a newline
  there; hence a file that holds such a content and a line end gives no finding. The same
  content as the last line of a file without a line end is within the limit and is
  evaluated, and so is a content of \<open>max_length - 1\<close> characters before a carriage return and
  a newline.
\<close>

theorem length_test_counts_the_newline:
  "(int (length content) = max_length \<longrightarrow>
      (\<forall>k fs. k < length (lines_of h) \<and> lines_of h ! k = content @ [newline]
               \<and> check_file_handler path max_length analyzers patterns (Text h) = Inr fs
             \<longrightarrow> (\<forall>f\<in>set fs. line f \<noteq> k)))
   \<and> (newline \<notin> set content \<and> carriage_return \<notin> set content \<longrightarrow>
        text_file (content @ newline # rest)
        = Text (Line (content @ [newline])
                 (foldr Line (readlines [] (universal_newlines rest)) EOF))
        \<and> text_file (content @ carriage_return # newline # rest)
          = Text (Line (content @ [newline])
                   (foldr Line (readlines [] (universal_newlines rest)) EOF)))
   \<and> (newline \<notin> set content \<and> carriage_return \<notin> set content
        \<and> int (length content) = max_length \<longrightarrow>
        check_file_handler path max_length analyzers patterns (text_file (content @ [newline]))
        = Inr []
        \<and> check_file_handler path max_length analyzers patterns
            (text_file (content @ [carriage_return, newline]))
          = Inr [])
   \<and> (newline \<notin> set content \<and> carriage_return \<notin> set content
        \<and> int (length content) + 1 = max_length \<longrightarrow>
        check_file_handler path max_length analyzers patterns
          (text_file (content @ [carriage_return, newline]))
        = Inr (hits path 0 (content @ [newline]) patterns analyzers))
   \<and> (newline \<notin> set content \<and> carriage_return \<notin> set content \<and> content \<noteq> []
        \<and> int (length content) = max_length \<longrightarrow>
        check_file_handler path max_length analyzers patterns (text_file content)
        = Inr (hits path 0 content patterns analyzers))"
proof (intro conjI impI allI)
  fix k fs
  assume len: "int (length content) = max_length"
    and k: "k < length (lines_of h) \<and> lines_of h ! k = content @ [newline]
            \<and> check_file_handler path max_length analyzers patterns (Text h) = Inr fs"
  show "\<forall>f\<in>set fs. line f \<noteq> k"
  proof
    fix f assume "f \<in> set fs"
    with k findings_come_from_short_lines
    have "int (length (lines_of h ! line f)) \<le> max_length" by blast
    with len k show "line f \<noteq> k" by auto
  qed
next
  assume "newline \<notin> set content \<and> carriage_return \<notin> set content"
  then show "text_file (content @ newline # rest)
        = Text (Line (content @ [newline])
                 (foldr Line (readlines [] (universal_newlines rest)) EOF))"
    by (simp add: text_file_def universal_newlines_plain universal_newlines_lf readlines_line)
next
  assume "newline \<notin> set content \<and> carriage_return \<notin> set content"
  then show "text_file (content @ carriage_return # newline # rest)
          = Text (Line (content @ [newline])
                   (foldr Line (readlines [] (universal_newlines rest)) EOF))"
    by (simp add: text_file_def universal_newlines_plain universal_newlines_crlf readlines_line
          del: universal_newlines.simps(1,2))
next
  assume a: "newline \<notin> set content \<and> carriage_return \<notin> set content
        \<and> int (length content) = max_length"
  then have "readlines [] (universal_newlines (content @ [newline])) = [content @ [newline]]"
    using readlines_line [of content "[]" "[]"]
    by (simp add: universal_newlines_plain universal_newlines_lf del: universal_newlines.simps(1,2))
  moreover from a have "max_length < int (length (content @ [newline]))" by simp
  ultimately show "check_file_handler path max_length analyzers patterns
        (text_file (content @ [newline])) = Inr []"
    by (simp add: text_file_def check_file_handler_def del: universal_newlines.simps(1,2))
next
  assume a: "newline \<notin> set content \<and> carriage_return \<notin> set content
        \<and> int (length content) = max_length"
  then have "readlines [] (universal_newlines (content @ [carriage_return, newline]))
      = [content @ [newline]]"
    using readlines_line [of content "[]" "[]"]
    by (simp add: universal_newlines_plain universal_newlines_crlf del: universal_newlines.simps(1,2))
  moreover from a have "max_length < int (length (content @ [newline]))" by simp
  ultimately show "check_file_handler path max_length analyzers patterns
        (text_file (content @ [carriage_return, newline])) = Inr []"
    by (simp add: text_file_def check_file_handler_def del: universal_newlines.simps(1,2))
next
  assume a: "newline \<notin> set content \<and> carriage_return \<notin> set content
        \<and> int (length content) + 1 = max_length"
  then have "readlines [] (universal_newlines (content @ [carriage_return, newline]))
      = [content @ [newline]]"
    using readlines_line [of content "[]" "[]"]
    by (simp add: universal_newlines_plain universal_newlines_crlf del: universal_newlines.simps(1,2))
  moreover from a have "\<not> max_length < int (length (content @ [newline]))" by simp
  ultimately show "check_file_handler path max_length analyzers patterns
          (text_file (content @ [carriage_return, newline]))
        = Inr (hits path 0 (content @ [newline]) patterns analyzers)"
    by (simp add: text_file_def check_file_handler_def analyzers_loop_hits
          del: universal_newlines.simps(1,2))
next
  assume a: "newline \<notin> set content \<and> carriage_return \<notin> set content \<and> content \<noteq> []
        \<and> int (length content) = max_length"
  then have "readlines [] (universal_newlines content) = [content]"
    using readlines_last [of content "[]"] universal_newlines_plain [of content "[]"]
    by simp
  moreover from a have "\<not> max_length < int (length content)" by simp
  ultimately show "check_file_handler path max_length analyzers patterns (text_file content)
        = Inr (hits path 0 content patterns analyzers)"
    by (simp add: text_file_def check_file_handler_def analyzers_loop_hits)
qed

text \<open>
  The line \<open>pass=abcd\<close> has nine characters and matches the inline rule for the keyword
  \<open>pass\<close>; followed by a newline it is not evaluated under the limit 9.
\<close>

theorem length_test_counts_the_newline_witness:
  "(newline \<notin> set ''pass=abcd'' \<and> carriage_return \<notin> set ''pass=abcd''
    \<and> int (length ''pass=abcd'') = 9)
   \<and> check_file_handler ''f'' 9 [url_detector [''pass'']] [] (text_file (''pass=abcd'' @ [newline]))
       = Inr []"
proof -
  have h: "newline \<notin> set ''pass=abcd'' \<and> carriage_return \<notin> set ''pass=abcd''
      \<and> int (length ''pass=abcd'') = 9"
    by (simp add: newline_def carriage_return_def)
  with length_test_counts_the_newline [of "''pass=abcd''" 9 EOF "''f''" "[url_detector [''pass'']]" "[]" "[]"]
  show ?thesis by blast
qed


section \<open>Properties of suppression\<close>

lemma check_exclude_pattern_iff:
  "check_exclude_pattern patterns ln = (\<exists>p\<in>set patterns. re_match p ln \<noteq> None)"
  by (induction patterns) auto

lemma patterns_tried_first_match:
  "re_match p ln \<noteq> None \<Longrightarrow> \<forall>q\<in>set before. re_match q ln = None \<Longrightarrow>
     patterns_tried (before @ p # after) ln = before @ [p]"
  by (induction before) auto

lemma suppressed_line_adds_nothing:
  "check_exclude_pattern patterns ln \<Longrightarrow>
     analyzers_loop path i ln patterns analyzers result = result"
  by (simp add: analyzers_loop_hits hits_def)

lemma hash_comment_compiled: "re_compile ''^#.*'' = Some hash_comment"
  by code_simp

lemma hash_comment_matches:
  "re_match hash_comment (''# password = '' @ [dquote] @ ''example1234'' @ [dquote, newline]) \<noteq> None"
  by code_simp

lemma assignment_matches_comment:
  "re_findall (assignment_detector DEFAULT_BAD_WORDS)
     (''# password = '' @ [dquote] @ ''example1234'' @ [dquote, newline])
   = [''password = '' @ [dquote] @ ''example1234'' @ [dquote]]"
  by code_simp

text \<open>
  Claim C6. The suppression check is true exactly when some pattern of the list matches the
  line from position 0, hence never for the empty list. The loop stops at the first pattern
  that matches: the patterns before it and that pattern are tried, none after it. A line for
  which the check is true adds no finding, whatever the analyzers find in it: the pattern
  \<open>^#.*\<close> compiles, the assignment rule matches the line \<open># password = "example1234"\<close>, and
  a file with that line gives no finding under that pattern.
\<close>

theorem suppression_is_first_match_at_line_start:
  "check_exclude_pattern patterns ln = (\<exists>p\<in>set patterns. re_match p ln \<noteq> None)
   \<and> \<not> check_exclude_pattern [] ln
   \<and> (re_match p ln \<noteq> None \<and> (\<forall>q\<in>set before. re_match q ln = None) \<longrightarrow>
        patterns_tried (before @ p # after) ln = before @ [p])
   \<and> (check_exclude_pattern patterns ln \<longrightarrow>
        analyzers_loop path i ln patterns analyzers result = result)
   \<and> re_compile ''^#.*'' = Some hash_comment
   \<and> re_findall (assignment_detector DEFAULT_BAD_WORDS)
        (''# password = '' @ [dquote] @ ''example1234'' @ [dquote, newline]) \<noteq> []
   \<and> check_file_handler path 1000
        [assignment_detector DEFAULT_BAD_WORDS, url_detector DEFAULT_BAD_WORDS] [hash_comment]
        (Text (Line (''# password = '' @ [dquote] @ ''example1234'' @ [dquote, newline]) EOF))
      = Inr []"
proof (intro conjI)
  show "check_exclude_pattern patterns ln = (\<exists>p\<in>set patterns. re_match p ln \<noteq> None)"
    by (rule check_exclude_pattern_iff)
  show "\<not> check_exclude_pattern [] ln"
    by simp
  show "re_match p ln \<noteq> None \<and> (\<forall>q\<in>set before. re_match q ln = None) \<longrightarrow>
        patterns_tried (before @ p # after) ln = before @ [p]"
    using patterns_tried_first_match by blast
  show "check_exclude_pattern patterns ln \<longrightarrow>
        analyzers_loop path i ln patterns analyzers result = result"
    using suppressed_line_adds_nothing by blast
  show "re_compile ''^#.*'' = Some hash_comment"
    by (rule hash_comment_compiled)
  show "re_findall (assignment_detector DEFAULT_BAD_WORDS)
        (''# password = '' @ [dquote] @ ''example1234'' @ [dquote, newline]) \<noteq> []"
    unfolding assignment_matches_comment by simp
  define L where "L = ''# password = '' @ [dquote] @ ''example1234'' @ [dquote, newline]"
  have "check_exclude_pattern [hash_comment] L"
    unfolding L_def using hash_comment_matches by simp
  then have "lines_loop path 1000
        [assignment_detector DEFAULT_BAD_WORDS, url_detector DEFAULT_BAD_WORDS] [hash_comment]
        0 (Line L EOF) [] = []"
    by (simp only: lines_loop.simps suppressed_line_adds_nothing if_cancel)
  then show "check_file_handler path 1000
        [assignment_detector DEFAULT_BAD_WORDS, url_detector DEFAULT_BAD_WORDS] [hash_comment]
        (Text (Line (''# password = '' @ [dquote] @ ''example1234'' @ [dquote, newline]) EOF))
      = Inr []"
    unfolding L_def check_file_handler_def by simp
qed

text \<open>
  The pattern matches the line \<open>#x\<close>; of the two patterns only the first is tried, the check
  is true and an analyzer that matches every line adds nothing.
\<close>

theorem suppression_is_first_match_at_line_start_witness:
  "re_match hash_comment ''#x'' \<noteq> None
   \<and> patterns_tried [hash_comment, Eps] ''#x'' = [hash_comment]
   \<and> check_exclude_pattern [hash_comment, Eps] ''#x''
   \<and> analyzers_loop ''f'' 0 ''#x'' [hash_comment, Eps] [Eps] [] = []"
proof -
  have m: "re_match hash_comment ''#x'' \<noteq> None"
    by code_simp
  have t: "re_match hash_comment ''#x'' \<noteq> None \<and> (\<forall>q\<in>set []. re_match q ''#x'' = None)"
    using m by simp
  note c6 = suppression_is_first_match_at_line_start
    [of "[hash_comment, Eps]" "''#x''" hash_comment "[]" "[Eps]" "''f''" 0 "[Eps]" "[]"]
  from c6 m have c: "check_exclude_pattern [hash_comment, Eps] ''#x''"
    by simp
  from c6 t have "patterns_tried ([] @ hash_comment # [Eps]) ''#x'' = [] @ [hash_comment]"
    by blast
  moreover from c6 c have "analyzers_loop ''f'' 0 ''#x'' [hash_comment, Eps] [Eps] [] = []"
    by blast
  ultimately show ?thesis using m c by simp
qed


section \<open>Properties of the keyword pattern\<close>


lemma pass_analyzers_compiled:
  "build_regex_analyzers DEFAULT_ANALYZERS (build_bad_words [''pass'']) =
     Some [assignment_detector [''pass''], url_detector [''pass'']]"
  by code_simp

lemma empty_analyzers_compiled:
  "build_regex_analyzers DEFAULT_ANALYZERS (build_bad_words []) =
     Some [assignment_detector [], url_detector []]"
  by code_simp

lemma empty_keyword_part_matches:
  "re_findall (assignment_detector []) (''='' @ [dquote] @ ''abcd'' @ [dquote])
     = [''='' @ [dquote] @ ''abcd'' @ [dquote]]"
  by code_simp

lemma empty_keyword_part_matches_inline:
  "re_findall (url_detector []) ''=abcd'' = [''=abcd'']
   \<and> re_findall (url_detector []) (''='' @ [dquote] @ ''abcd'' @ [dquote]) = []"
  by code_simp

text \<open>
  Claim C5, as the code has it. For the empty keyword list the builder returns the empty
  pattern text; nothing fails. Both default rules compile with it, to detectors without a
  keyword part: \<open>="abcd"\<close> alone is a match of the assignment rule (not of the inline rule,
  whose tail admits no quote), and \<open>=abcd\<close> alone is a match of the inline rule. The main
  program does not get there: an empty list counts as absent, and the default keywords are
  used.
\<close>

theorem build_bad_words_empty_list:
  "build_bad_words [] = []
   \<and> build_regex_analyzers DEFAULT_ANALYZERS (build_bad_words [])
       = Some [assignment_detector [], url_detector []]
   \<and> re_findall (assignment_detector []) (''='' @ [dquote] @ ''abcd'' @ [dquote])
       = [''='' @ [dquote] @ ''abcd'' @ [dquote]]
   \<and> re_findall (url_detector []) ''=abcd'' = [''=abcd'']
   \<and> re_findall (url_detector []) (''='' @ [dquote] @ ''abcd'' @ [dquote]) = []
   \<and> main_bad_words [] = build_bad_words DEFAULT_BAD_WORDS
   \<and> main_bad_words [] \<noteq> []"
proof (intro conjI)
  show "build_bad_words [] = []"
    by (simp add: build_bad_words_def)
  show "build_regex_analyzers DEFAULT_ANALYZERS (build_bad_words [])
       = Some [assignment_detector [], url_detector []]"
    by (rule empty_analyzers_compiled)
  show "re_findall (assignment_detector []) (''='' @ [dquote] @ ''abcd'' @ [dquote])
       = [''='' @ [dquote] @ ''abcd'' @ [dquote]]"
    by (rule empty_keyword_part_matches)
  show "re_findall (url_detector []) ''=abcd'' = [''=abcd'']"
    using empty_keyword_part_matches_inline by (rule conjunct1)
  show "re_findall (url_detector []) (''='' @ [dquote] @ ''abcd'' @ [dquote]) = []"
    using empty_keyword_part_matches_inline by (rule conjunct2)
  show "main_bad_words [] = build_bad_words DEFAULT_BAD_WORDS"
    by (simp add: main_bad_words_def)
  show "main_bad_words [] \<noteq> []"
    by code_simp
qed

text \<open>
  Against C5 as the specification words it: the builder produces a pattern for the empty
  list, and the rules compile with that pattern.
\<close>

theorem build_bad_words_returns_empty_pattern:
  "build_bad_words [] = ''''
   \<and> build_regex_analyzers DEFAULT_ANALYZERS (build_bad_words []) \<noteq> None"
  by (simp add: empty_analyzers_compiled) (simp add: build_bad_words_def)


section \<open>Properties of the findings\<close>




lemma both_detectors_example:
  "analyzers_loop ''a.py'' 7
     (''  pass=abcd pass=efgh pass='' @ [dquote] @ ''ijkl'' @ [dquote, newline]) []
     [assignment_detector [''pass''], url_detector [''pass'']] []
   = [\<lparr>file = ''a.py'', target = ''pass='' @ [dquote] @ ''ijkl'' @ [dquote], line = 7,
         string = ''pass=abcd pass=efgh pass='' @ [dquote] @ ''ijkl'' @ [dquote]\<rparr>,
      \<lparr>file = ''a.py'', target = ''pass=abcd'', line = 7,
         string = ''pass=abcd pass=efgh pass='' @ [dquote] @ ''ijkl'' @ [dquote]\<rparr>]"
  by code_simp

lemma two_matches_example:
  "re_findall (url_detector [''pass''])
     (''  pass=abcd pass=efgh pass='' @ [dquote] @ ''ijkl'' @ [dquote, newline])
   = [''pass=abcd'', ''pass=efgh'']"
  by code_simp

text \<open>
  Claim C7. On a line that is not suppressed the evaluator appends one finding for each
  analyzer that matches, in the order of the analyzers and without merging; each finding
  holds the path, the first element of the analyzer's \<open>findall\<close>, the number of the line
  and the stripped line. So a line adds at most one finding per analyzer. Over a file the
  lines are numbered from 0. In the example the inline rule matches twice and the
  assignment rule once: two findings, the one of the inline rule with its first match.
\<close>

theorem one_finding_per_detector_and_line:
  "(\<not> check_exclude_pattern patterns ln \<longrightarrow>
      analyzers_loop path i ln patterns analyzers []
      = map (\<lambda>checker. \<lparr>file = path, target = hd (re_findall checker ln), line = i,
                               string = strip ln\<rparr>)
          (filter (\<lambda>checker. re_findall checker ln \<noteq> []) analyzers))
   \<and> length (analyzers_loop path i ln patterns analyzers []) \<le> length analyzers
   \<and> check_file_handler path max_length analyzers patterns (Text h)
       = Inr (concat (map (\<lambda>(k, l). if max_length < int (length l) then []
                                       else analyzers_loop path k l patterns analyzers [])
                       (zip [0 ..< length (lines_of h)] (lines_of h))))
   \<and> re_findall (url_detector [''pass''])
        (''  pass=abcd pass=efgh pass='' @ [dquote] @ ''ijkl'' @ [dquote, newline])
       = [''pass=abcd'', ''pass=efgh'']
   \<and> analyzers_loop ''a.py'' 7
        (''  pass=abcd pass=efgh pass='' @ [dquote] @ ''ijkl'' @ [dquote, newline]) []
        [assignment_detector [''pass''], url_detector [''pass'']] []
       = [\<lparr>file = ''a.py'', target = ''pass='' @ [dquote] @ ''ijkl'' @ [dquote], line = 7,
             string = ''pass=abcd pass=efgh pass='' @ [dquote] @ ''ijkl'' @ [dquote]\<rparr>,
          \<lparr>file = ''a.py'', target = ''pass=abcd'', line = 7,
             string = ''pass=abcd pass=efgh pass='' @ [dquote] @ ''ijkl'' @ [dquote]\<rparr>]"
proof (intro conjI)
  show "\<not> check_exclude_pattern patterns ln \<longrightarrow>
      analyzers_loop path i ln patterns analyzers []
      = map (\<lambda>checker. \<lparr>file = path, target = hd (re_findall checker ln), line = i,
                               string = strip ln\<rparr>)
          (filter (\<lambda>checker. re_findall checker ln \<noteq> []) analyzers)"
    by (simp add: analyzers_loop_hits hits_def)
  show "length (analyzers_loop path i ln patterns analyzers []) \<le> length analyzers"
    by (simp add: analyzers_loop_hits hits_def)
  have "line_hits path max_length analyzers patterns
        = (\<lambda>(k, l). if max_length < int (length l) then []
                      else analyzers_loop path k l patterns analyzers [])"
    by (auto simp: line_hits_def analyzers_loop_hits fun_eq_iff)
  then show "check_file_handler path max_length analyzers patterns (Text h)
       = Inr (concat (map (\<lambda>(k, l). if max_length < int (length l) then []
                                       else analyzers_loop path k l patterns analyzers [])
                       (zip [0 ..< length (lines_of h)] (lines_of h))))"
    by (simp add: check_file_handler_lines)
  show "re_findall (url_detector [''pass''])
        (''  pass=abcd pass=efgh pass='' @ [dquote] @ ''ijkl'' @ [dquote, newline])
       = [''pass=abcd'', ''pass=efgh'']"
    by (rule two_matches_example)
  show "analyzers_loop ''a.py'' 7
        (''  pass=abcd pass=efgh pass='' @ [dquote] @ ''ijkl'' @ [dquote, newline]) []
        [assignment_detector [''pass''], url_detector [''pass'']] []
       = [\<lparr>file = ''a.py'', target = ''pass='' @ [dquote] @ ''ijkl'' @ [dquote], line = 7,
             string = ''pass=abcd pass=efgh pass='' @ [dquote] @ ''ijkl'' @ [dquote]\<rparr>,
          \<lparr>file = ''a.py'', target = ''pass=abcd'', line = 7,
             string = ''pass=abcd pass=efgh pass='' @ [dquote] @ ''ijkl'' @ [dquote]\<rparr>]"
    by (rule both_detectors_example)
qed

text \<open>Two analyzers that both match the line \<open>x\<close> (with the empty match).\<close>

theorem one_finding_per_detector_and_line_witness:
  "\<not> check_exclude_pattern [] ''x''
   \<and> analyzers_loop ''f'' 0 ''x'' [] [Eps, Eps] []
       = map (\<lambda>checker. \<lparr>file = ''f'', target = hd (re_findall checker ''x''), line = 0,
                                string = strip ''x''\<rparr>)
           (filter (\<lambda>checker. re_findall checker ''x'' \<noteq> []) [Eps, Eps])"
  using one_finding_per_detector_and_line [of "[]" "''x''" "''f''" 0 "[Eps, Eps]" 1 EOF]
  by simp


section \<open>Properties of the walk\<close>

lemma scan_append:
  "scan limit ml an pats (xs @ ys) st = and_then (scan limit ml an pats xs st) (scan limit ml an pats ys)"
proof (induction xs arbitrary: st)
  case Nil
  show ?case by (simp add: and_then_def)
next
  case (Cons x xs)
  obtain path f where x: "x = (path, f)" by (cases x)
  obtain counter result where st: "st = (counter, result)" by (cases st)
  show ?case
    by (simp add: x st Cons.IH and_then_def split: sum.splits)
qed

lemma files_loop_scan:
  "files_loop limit ml an pats inc exc root file_list st =
     scan limit ml an pats
       (filter (\<lambda>(path, f). can_analyze_file inc exc path)
          (map (\<lambda>(name, f). (os_path_join root name, f)) file_list)) st"
proof (induction file_list arbitrary: st)
  case Nil
  show ?case by simp
next
  case (Cons x file_list)
  obtain name f where x: "x = (name, f)" by (cases x)
  obtain counter result where st: "st = (counter, result)" by (cases st)
  show ?case
    by (simp add: x st Cons.IH Let_def split: sum.splits)
qed

lemma walk_loop_scan:
  "walk_loop limit ml an pats inc exc w st = scan limit ml an pats (eligible inc exc w) st"
proof (induction w arbitrary: st)
  case Nil
  show ?case by (simp add: eligible_def walk_files_def)
next
  case (Cons t w)
  obtain root subs file_list where t: "t = (root, subs, file_list)" by (cases t)
  have e: "eligible inc exc (t # w)
      = filter (\<lambda>(path, f). can_analyze_file inc exc path)
          (map (\<lambda>(name, f). (os_path_join root name, f)) file_list) @ eligible inc exc w"
    by (simp add: eligible_def walk_files_def t)
  show ?case
    unfolding e scan_append
    by (simp add: t files_loop_scan Cons.IH and_then_def split: flow.splits)
qed

lemma scan_stops:
  "counter \<le> limit + 1 \<Longrightarrow> limit < int (length fs) + counter \<Longrightarrow>
   \<forall>pf\<in>set (take (nat (limit + 1 - counter)) fs). snd pf \<noteq> OpenFails \<Longrightarrow>
   scan limit ml an pats fs (counter, result)
     \<in> {Continue (limit + 1, result @ concat (map (found_in ml an pats)
                                               (take (nat (limit + 1 - counter)) fs))),
        Return (limit + 1, result @ concat (map (found_in ml an pats)
                                              (take (nat (limit + 1 - counter)) fs)))}"
proof (induction fs arbitrary: counter result)
  case Nil
  then have "counter = limit + 1" by simp
  then show ?case by simp
next
  case (Cons pf fs)
  obtain path f where pf: "pf = (path, f)" by (cases pf)
  show ?case
  proof (cases "counter > limit")
    case True
    with Cons.prems have "counter = limit + 1" by simp
    then show ?thesis by (simp add: pf)
  next
    case False
    then have n: "nat (limit + 1 - counter) = Suc (nat (limit + 1 - (counter + 1)))"
      by simp
    with Cons.prems(3) have opens: "f \<noteq> OpenFails"
      and rest: "\<forall>pf\<in>set (take (nat (limit + 1 - (counter + 1))) fs). snd pf \<noteq> OpenFails"
      by (simp_all add: pf)
    from opens obtain h where f: "f = Text h" by (cases f) simp_all
    have c: "check_file_handler path ml an pats f = Inr (found_in ml an pats pf)"
      by (simp add: check_file_handler_def found_in_def pf f)
    from False Cons.prems have b: "counter + 1 \<le> limit + 1" "limit < int (length fs) + (counter + 1)"
      by simp_all
    from Cons.IH [OF b rest, of "result @ found_in ml an pats pf"] False
    show ?thesis
      unfolding n by (simp add: pf c)
  qed
qed

lemma scan_negative_limit:
  "limit < 0 \<Longrightarrow> scan limit ml an pats fs (0, []) \<in> {Continue (0, []), Return (0, [])}"
  by (cases fs) auto

lemma scan_raises:
  "i < length fs \<Longrightarrow> int i + counter \<le> limit \<Longrightarrow> snd (fs ! i) = OpenFails \<Longrightarrow>
     scan limit ml an pats fs (counter, result) = Raise OSError"
proof (induction fs arbitrary: i counter result)
  case Nil
  then show ?case by simp
next
  case (Cons pf fs)
  obtain path f where pf: "pf = (path, f)" by (cases pf)
  from Cons.prems have le: "counter \<le> limit" by simp
  show ?case
  proof (cases f)
    case OpenFails
    with le show ?thesis by (simp add: pf check_file_handler_def)
  next
    case (Text h)
    with Cons.prems pf obtain j where i: "i = Suc j" by (cases i) simp_all
    with Cons.prems have "j < length fs" "int j + (counter + 1) \<le> limit" "snd (fs ! j) = OpenFails"
      by simp_all
    from Cons.IH [OF this] le show ?thesis
      by (simp add: pf Text check_file_handler_def)
  qed
qed

text \<open>
  Claim C2, as the code has it. The counter is compared with the limit by \<open>>\<close> before it is
  raised: an accepted file met with the counter above the limit ends the walk with the
  counter and the findings as they are, and an accepted file met with the counter at or
  below the limit is counted and evaluated. So for every limit from \<open>-1\<close> on and every walk
  with more than \<open>limit\<close> accepted files, of which the first \<open>limit + 1\<close> can be opened, the
  walk returns the counter \<open>limit + 1\<close> and the findings of exactly the first \<open>limit + 1\<close>
  accepted files, as a result and not as an error; no later file is opened, since the
  result does not depend on whether it can be. With the limit 2 and five accepted files, of
  which the last two cannot be opened, the counter is 3. Outside these bounds: under a
  negative limit no file is counted or evaluated and the counter returned is 0, on every
  walk; and when one of the first \<open>limit + 1\<close> accepted files cannot be opened, the walk
  ends with that error and returns nothing.
\<close>

theorem scan_stops_one_past_the_limit:
  "(can_analyze_file inc exc (os_path_join root name) \<and> limit < counter \<longrightarrow>
      files_loop limit ml an pats inc exc root ((name, f) # file_list) (counter, result)
      = Return (counter, result))
   \<and> (can_analyze_file inc exc (os_path_join root name) \<and> counter \<le> limit \<longrightarrow>
        files_loop limit ml an pats inc exc root ((name, Text h) # file_list) (counter, result)
        = files_loop limit ml an pats inc exc root file_list
            (counter + 1, result @ lines_loop (os_path_join root name) ml an pats 0 h []))
   \<and> (- 1 \<le> limit \<and> limit < int (length (eligible inc exc w))
        \<and> (\<forall>pf\<in>set (take (nat (limit + 1)) (eligible inc exc w)). snd pf \<noteq> OpenFails) \<longrightarrow>
        start_digging w limit ml an pats inc exc
        = Inr (limit + 1,
               concat (map (found_in ml an pats) (take (nat (limit + 1)) (eligible inc exc w)))))
   \<and> start_digging
         [(''p'', [], [(''a'', Text EOF), (''b'', Text EOF), (''c'', Text EOF),
                       (''d'', OpenFails), (''e'', OpenFails)])]
         2 1000 an pats [] []
       = Inr (3, [])
   \<and> (limit < 0 \<longrightarrow> start_digging w limit ml an pats inc exc = Inr (0, []))
   \<and> ((\<exists>i. i < length (eligible inc exc w) \<and> int i \<le> limit
             \<and> snd (eligible inc exc w ! i) = OpenFails) \<longrightarrow>
        start_digging w limit ml an pats inc exc = Inl OSError)"
proof (intro conjI impI)
  assume "can_analyze_file inc exc (os_path_join root name) \<and> limit < counter"
  then show "files_loop limit ml an pats inc exc root ((name, f) # file_list) (counter, result)
      = Return (counter, result)"
    by (simp add: Let_def)
next
  assume "can_analyze_file inc exc (os_path_join root name) \<and> counter \<le> limit"
  then show "files_loop limit ml an pats inc exc root ((name, Text h) # file_list) (counter, result)
        = files_loop limit ml an pats inc exc root file_list
            (counter + 1, result @ lines_loop (os_path_join root name) ml an pats 0 h [])"
    by (simp add: Let_def check_file_handler_def)
next
  assume a: "- 1 \<le> limit \<and> limit < int (length (eligible inc exc w))
        \<and> (\<forall>pf\<in>set (take (nat (limit + 1)) (eligible inc exc w)). snd pf \<noteq> OpenFails)"
  then have "scan limit ml an pats (eligible inc exc w) (0, [])
     \<in> {Continue (limit + 1, [] @ concat (map (found_in ml an pats)
                                            (take (nat (limit + 1 - 0)) (eligible inc exc w)))),
        Return (limit + 1, [] @ concat (map (found_in ml an pats)
                                          (take (nat (limit + 1 - 0)) (eligible inc exc w))))}"
    by (intro scan_stops) simp_all
  then show "start_digging w limit ml an pats inc exc
        = Inr (limit + 1,
               concat (map (found_in ml an pats) (take (nat (limit + 1)) (eligible inc exc w))))"
    by (auto simp: start_digging_def walk_loop_scan)
next
  show "start_digging
         [(''p'', [], [(''a'', Text EOF), (''b'', Text EOF), (''c'', Text EOF),
                       (''d'', OpenFails), (''e'', OpenFails)])]
         2 1000 an pats [] []
       = Inr (3, [])"
    by (simp add: start_digging_def can_analyze_file_def check_file_handler_def Let_def)
next
  assume "limit < 0"
  from scan_negative_limit [OF this, of ml an pats "eligible inc exc w"]
  show "start_digging w limit ml an pats inc exc = Inr (0, [])"
    by (auto simp: start_digging_def walk_loop_scan)
next
  assume "\<exists>i. i < length (eligible inc exc w) \<and> int i \<le> limit
             \<and> snd (eligible inc exc w ! i) = OpenFails"
  then obtain i where "i < length (eligible inc exc w)" "int i + 0 \<le> limit"
    "snd (eligible inc exc w ! i) = OpenFails" by auto
  from scan_raises [OF this]
  show "start_digging w limit ml an pats inc exc = Inl OSError"
    by (simp add: start_digging_def walk_loop_scan)
qed

text \<open>The limit 1 and three accepted files, of which the third cannot be opened.\<close>

theorem scan_stops_one_past_the_limit_witness:
  "eligible [] [] [(''p'', [], [(''a'', Text EOF), (''b'', Text EOF), (''c'', OpenFails)])]
     = [(''p/a'', Text EOF), (''p/b'', Text EOF), (''p/c'', OpenFails)]
   \<and> start_digging [(''p'', [], [(''a'', Text EOF), (''b'', Text EOF), (''c'', OpenFails)])]
         1 1000 [] [] [] []
       = Inr (2, [])"
proof -
  let ?w = "[(''p'', [], [(''a'', Text EOF), (''b'', Text EOF), (''c'', OpenFails)])]"
  have e: "eligible [] [] ?w
      = [(''p/a'', Text EOF), (''p/b'', Text EOF), (''p/c'', OpenFails)]"
    by (simp add: eligible_def walk_files_def can_analyze_file_def os_path_join_def)
  have h: "- 1 \<le> (1::int) \<and> 1 < int (length (eligible [] [] ?w))
      \<and> (\<forall>pf\<in>set (take (nat (1 + 1)) (eligible [] [] ?w)). snd pf \<noteq> OpenFails)"
    unfolding e by (simp add: numeral_2_eq_2)
  from scan_stops_one_past_the_limit
    [of "[]" "[]" "''p''" "''a''" 1 0 1000 "[]" "[]" OpenFails "[]" "[]" EOF ?w] h
  have "start_digging ?w 1 1000 [] [] [] []
      = Inr (1 + 1, concat (map (found_in 1000 [] []) (take (nat (1 + 1)) (eligible [] [] ?w))))"
    by blast
  also have "\<dots> = Inr (2, [])"
    unfolding e by (simp add: numeral_2_eq_2 found_in_def)
  finally show ?thesis using e by blast
qed

text \<open>
  Against C2 as the specification words it, for every limit and every tree: under the limit
  \<open>-5\<close> a walk with one accepted file returns the counter 0, which is not \<open>limit + 1\<close>, and
  under the limit 0 a walk whose first accepted file cannot be opened returns no result but
  the error.
\<close>

theorem start_digging_outside_the_bounds:
  "start_digging [(''p'', [], [(''a'', Text EOF)])] (- 5) 1000 [] [] [] [] = Inr (0, [])
   \<and> start_digging [(''p'', [], [(''a'', Text EOF)])] (- 5) 1000 [] [] [] []
       \<noteq> Inr (- 5 + 1, [])
   \<and> start_digging [(''p'', [], [(''a'', OpenFails)])] 0 1000 [] [] [] [] = Inl OSError"
  by (simp add: start_digging_def can_analyze_file_def check_file_handler_def Let_def)


section \<open>The matcher finds the texts that the pattern matches\<close>









































section \<open>Properties of the two default detectors\<close>




















end
